theory Spec2Isabelle
  imports Main
begin

section \<open>JavaScript values reaching the tool-message parser\<close>

text \<open>
  The parser functions of \<^verbatim>\<open>src/lib/utils/tool-message-parser.ts\<close> take
  \<^verbatim>\<open>args: any\<close>. The arguments of a tool invocation are JSON data, so the model
  takes JSON values; \<open>undefined\<close> (an absent argument or an absent property) is the
  \<open>None\<close> of an option. Of a number only whether it is zero matters to this code,
  so numbers are integers here. An object is the list of its properties (the keys of
  an object are distinct), read with \<open>map_of\<close>.
\<close>

datatype json =
    JNull
  | JBool bool
  | JNum int
  | JStr string
  | JArr "json list"
  | JObj "(string \<times> json) list"

text \<open>JavaScript truthiness, as used by \<^verbatim>\<open>!path\<close> and \<^verbatim>\<open>x || y\<close>.\<close>

fun truthy :: "json \<Rightarrow> bool" where
  "truthy JNull = False"
| "truthy (JBool b) = b"
| "truthy (JNum n) = (n \<noteq> 0)"
| "truthy (JStr s) = (s \<noteq> [])"
| "truthy (JArr xs) = True"
| "truthy (JObj kvs) = True"

text \<open>\<^verbatim>\<open>x || d\<close> for a possibly undefined \<open>x\<close>.\<close>

definition js_or :: "json option \<Rightarrow> json \<Rightarrow> json" where
  "js_or x d = (case x of None \<Rightarrow> d | Some v \<Rightarrow> if truthy v then v else d)"

text \<open>
  Property access \<^verbatim>\<open>v.k\<close> for the keys this code reads (\<open>command\<close>, \<open>path\<close>,
  \<open>new_path\<close>): only an object can have them; on a string, number, boolean or
  array they are undefined.
\<close>

fun get_prop :: "json \<Rightarrow> string \<Rightarrow> json option" where
  "get_prop (JObj kvs) k = map_of kvs k"
| "get_prop v k = None"

text \<open>What a JavaScript call can throw: a TypeError, or an \<open>Error\<close> with its message.\<close>

datatype js_error = TypeError | Error string

section \<open>Path-to-filename extraction\<close>

text \<open>
  \<^verbatim>\<open>String.prototype.split\<close> with a one-character separator: the pieces between
  the separators, empty pieces included; the result is never empty.
\<close>

fun split :: "char \<Rightarrow> string \<Rightarrow> string list" where
  "split c [] = [[]]"
| "split c (x # xs) =
     (if x = c then [] # split c xs
      else (case split c xs of p # ps \<Rightarrow> (x # p) # ps | [] \<Rightarrow> [[x]]))"

text \<open>
  \<^verbatim>\<open>
  export function extractFileName(path: string): string {
    if (!path || path === "/") return "/";
    const parts = path.split("/").filter(Boolean);
    return parts.length > 0 ? parts[parts.length - 1] : "/";
  }
  \<close>
  \<open>filter(Boolean)\<close> on strings keeps the non-empty ones.
\<close>

definition extractFileName :: "string \<Rightarrow> string" where
  "extractFileName path =
     (if path = [] \<or> path = ''/'' then ''/''
      else let parts = filter (\<lambda>s. s \<noteq> []) (split CHR ''/'' path)
           in if length parts > 0 then parts ! (length parts - 1) else ''/'')"

text \<open>
  The same function when the caller is untyped code and the value is not known to be a
  string: a falsy value returns at the first line; a truthy value that is not a string
  (a number, \<open>true\<close>, an array, an object of JSON data) has no callable \<open>split\<close>, and
  the call raises a TypeError.
\<close>

definition extractFileName_any :: "json \<Rightarrow> js_error + string" where
  "extractFileName_any v =
     (case v of
        JStr s \<Rightarrow> Inr (extractFileName s)
      | _ \<Rightarrow> if truthy v then Inl TypeError else Inr ''/'')"

section \<open>The tool-invocation classifier\<close>

datatype icon = FilePlus | FileEdit | FileX | FileSymlink | Eye | Undo

text \<open>The interface \<open>ToolMessage\<close>; the optional \<open>details\<close> is an option.\<close>

record ToolMessage =
  action :: string
  fileName :: string
  filePath :: string
  icon :: icon
  colorClass :: string
  bgColorClass :: string
  borderColorClass :: string
  details :: "string option"

text \<open>
  The string held by a value. It is applied to \<^verbatim>\<open>path || ""\<close> only after
  \<open>extractFileName\<close> has returned on that value, which leaves a string (lemma
  \<open>extractFileName_any_js_or\<close> below); the second equation is never reached.
\<close>

fun string_of :: "json \<Rightarrow> string" where
  "string_of (JStr s) = s"
| "string_of v = []"

text \<open>
  \<open>parseStrReplaceEditor\<close>, lines 28 to 90. \<^verbatim>\<open>const { command, path } = args || {}\<close>
  reads two properties; \<open>switch\<close> compares with \<open>===\<close>, so a command that is not one
  of the listed strings takes the default branch.
\<close>

definition parseStrReplaceEditor :: "json option \<Rightarrow> js_error + ToolMessage" where
  "parseStrReplaceEditor a =
     (let obj = js_or a (JObj []);
          command = get_prop obj ''command'';
          path = get_prop obj ''path''
      in case extractFileName_any (js_or path (JStr [])) of
           Inl e \<Rightarrow> Inl e
         | Inr name \<Rightarrow>
             (let fpath = string_of (js_or path (JStr []))
              in if command = Some (JStr ''create'') then
                   Inr \<lparr>action = ''Creating'', fileName = name, filePath = fpath,
                        icon = FilePlus, colorClass = ''text-green-600'',
                        bgColorClass = ''bg-green-50'',
                        borderColorClass = ''border-green-200'', details = None\<rparr>
                 else if command = Some (JStr ''str_replace'')
                       \<or> command = Some (JStr ''insert'') then
                   Inr \<lparr>action = ''Editing'', fileName = name, filePath = fpath,
                        icon = FileEdit, colorClass = ''text-amber-600'',
                        bgColorClass = ''bg-amber-50'',
                        borderColorClass = ''border-amber-200'', details = None\<rparr>
                 else if command = Some (JStr ''view'') then
                   Inr \<lparr>action = ''Viewing'', fileName = name, filePath = fpath,
                        icon = Eye, colorClass = ''text-blue-600'',
                        bgColorClass = ''bg-blue-50'',
                        borderColorClass = ''border-blue-200'', details = None\<rparr>
                 else if command = Some (JStr ''undo_edit'') then
                   Inr \<lparr>action = ''Undoing changes to'', fileName = name, filePath = fpath,
                        icon = Undo, colorClass = ''text-neutral-600'',
                        bgColorClass = ''bg-neutral-50'',
                        borderColorClass = ''border-neutral-200'', details = None\<rparr>
                 else
                   Inr \<lparr>action = ''Processing'', fileName = name, filePath = fpath,
                        icon = FileEdit, colorClass = ''text-neutral-600'',
                        bgColorClass = ''bg-neutral-50'',
                        borderColorClass = ''border-neutral-200'', details = None\<rparr>))"

text \<open>
  \<open>parseFileManager\<close>, lines 92 to 133. The rename branch calls \<open>extractFileName\<close>
  a second time, on \<^verbatim>\<open>new_path || ""\<close>.
\<close>

definition parseFileManager :: "json option \<Rightarrow> js_error + ToolMessage" where
  "parseFileManager a =
     (let obj = js_or a (JObj []);
          command = get_prop obj ''command'';
          path = get_prop obj ''path'';
          new_path = get_prop obj ''new_path''
      in case extractFileName_any (js_or path (JStr [])) of
           Inl e \<Rightarrow> Inl e
         | Inr name \<Rightarrow>
             (let fpath = string_of (js_or path (JStr []))
              in if command = Some (JStr ''delete'') then
                   Inr \<lparr>action = ''Deleting'', fileName = name, filePath = fpath,
                        icon = FileX, colorClass = ''text-red-600'',
                        bgColorClass = ''bg-red-50'',
                        borderColorClass = ''border-red-200'', details = None\<rparr>
                 else if command = Some (JStr ''rename'') then
                   (case extractFileName_any (js_or new_path (JStr [])) of
                      Inl e \<Rightarrow> Inl e
                    | Inr newFileName \<Rightarrow>
                        Inr \<lparr>action = ''Renaming'', fileName = name, filePath = fpath,
                             icon = FileSymlink, colorClass = ''text-purple-600'',
                             bgColorClass = ''bg-purple-50'',
                             borderColorClass = ''border-purple-200'',
                             details = Some (''to '' @ newFileName)\<rparr>)
                 else
                   Inr \<lparr>action = ''Processing'', fileName = name, filePath = fpath,
                        icon = FileSymlink, colorClass = ''text-neutral-600'',
                        bgColorClass = ''bg-neutral-50'',
                        borderColorClass = ''border-neutral-200'', details = None\<rparr>))"

text \<open>\<open>parseToolInvocation\<close>, lines 135 to 157.\<close>

definition parseToolInvocation :: "string \<Rightarrow> json option \<Rightarrow> js_error + ToolMessage" where
  "parseToolInvocation tool a =
     (if tool = ''str_replace_editor'' then parseStrReplaceEditor a
      else if tool = ''file_manager'' then parseFileManager a
      else Inr \<lparr>action = ''Running'', fileName = tool, filePath = [],
                icon = FileEdit, colorClass = ''text-neutral-600'',
                bgColorClass = ''bg-neutral-50'',
                borderColorClass = ''border-neutral-200'', details = None\<rparr>)"

section \<open>The tool-call display\<close>

text \<open>
  \<open>ToolCallDisplay\<close> (the component after the hook's tests in the source). The
  invocation's \<open>result\<close> is optional: \<open>None\<close> is \<open>undefined\<close>, and a \<open>null\<close>
  result is \<open>Some JNull\<close>.
\<close>

datatype tool_state = PartialCall | Call | Result

record ToolInvocation =
  toolCallId :: string
  toolName :: string
  args :: "json option"
  state :: tool_state
  result :: "json option"

datatype indicator = CheckCircle2 | Loader2

text \<open>\<^verbatim>\<open>const isCompleted = state === "result" && result !== undefined;\<close>\<close>

definition isCompleted :: "ToolInvocation \<Rightarrow> bool" where
  "isCompleted ti = (state ti = Result \<and> result ti \<noteq> None)"

text \<open>
  What the collapsed header shows: the state indicator, the operation icon, the label
  \<^verbatim>\<open>{message.action} {message.fileName}\<close> and the details when present.
\<close>

record header =
  stateIcon :: indicator
  operationIcon :: icon
  label :: string
  detailsText :: "string option"

text \<open>
  The component calls \<open>parseToolInvocation\<close> before it builds its output, so an
  exception of the parser leaves nothing rendered.
\<close>

definition ToolCallDisplay :: "ToolInvocation \<Rightarrow> js_error + header" where
  "ToolCallDisplay ti =
     (case parseToolInvocation (toolName ti) (args ti) of
        Inl e \<Rightarrow> Inl e
      | Inr message \<Rightarrow>
          Inr \<lparr>stateIcon = (if isCompleted ti then CheckCircle2 else Loader2),
               operationIcon = icon message,
               label = action message @ '' '' @ fileName message,
               detailsText = details message\<rparr>)"

section \<open>The post-authentication resolver\<close>

text \<open>
  The hook \<open>useAuth\<close> (\<^verbatim>\<open>src/hooks/use-auth.ts\<close>) is exercised by the tests in
  \<^verbatim>\<open>src/hooks/__tests__/use-auth.test.ts\<close>, but the file of the hook itself is
  not among the sources. Every definition of this section follows sections 3, 4.3, 5,
  6 and 7 of the specification instead.
\<close>

text \<open>
  Modelled from the spec: the data that the missing \<open>use-auth.ts\<close> handles. Section 6:
  the authentication collaborator returns \<^verbatim>\<open>{ success, error? }\<close>; section 3:
  \<open>AnonymousWork\<close> and \<open>Project\<close>.
\<close>

record AuthResult =
  success :: bool
  error :: "string option"

record AnonymousWork =
  messages :: "json list"
  fileSystemData :: "(string \<times> json) list"

text \<open>
  Modelled from the spec: a project as the missing \<open>use-auth.ts\<close> sees it, section 3.
  The field \<open>id\<close> of the specification is \<open>project_id\<close> here; a timestamp is an
  integer.
\<close>

record Project =
  project_id :: string
  updatedAt :: int

text \<open>
  Modelled from the spec: the argument that the missing \<open>use-auth.ts\<close> passes to
  \<open>createProject\<close>, section 6: \<^verbatim>\<open>{ name, messages, data }\<close>.
\<close>

record ProjectSpec =
  proj_name :: string
  proj_messages :: "json list"
  proj_data :: "(string \<times> json) list"

text \<open>
  Modelled from the spec: the collaborators of the missing \<open>use-auth.ts\<close>, section 6,
  as values of an environment. Each is called at most once in an attempt, so its
  outcome is one value, \<open>Inl\<close> when the call throws or its promise rejects. The
  current time as the locale prints it and the random draw are inputs as well.
\<close>

record env =
  signInAction :: "string \<Rightarrow> string \<Rightarrow> js_error + AuthResult"
  signUpAction :: "string \<Rightarrow> string \<Rightarrow> js_error + AuthResult"
  getAnonWorkData :: "js_error + AnonymousWork option"
  getProjects :: "js_error + Project list"
  createProject :: "ProjectSpec \<Rightarrow> js_error + Project"
  localeTime :: string
  randomDraw :: nat

text \<open>
  Modelled from the spec: the effects of the missing \<open>use-auth.ts\<close>, as the calls it
  makes on the collaborators of section 6 and on the loading flag of section 5, in
  order; the state of the hook is the flag and this trace.
\<close>

datatype event =
    SetIsLoading bool
  | SignInCall string string
  | SignUpCall string string
  | GetAnonWorkData
  | GetProjects
  | CreateProject ProjectSpec
  | ClearAnonWork
  | Navigate string

record hook_state =
  isLoading :: bool
  trace :: "event list"

definition initial_state :: hook_state where
  "initial_state = \<lparr>isLoading = False, trace = []\<rparr>"

definition log_event :: "event \<Rightarrow> hook_state \<Rightarrow> hook_state" where
  "log_event ev s = s\<lparr>trace := trace s @ [ev]\<rparr>"

definition setIsLoading :: "bool \<Rightarrow> hook_state \<Rightarrow> hook_state" where
  "setIsLoading b s = (log_event (SetIsLoading b) s)\<lparr>isLoading := b\<rparr>"

text \<open>
  Modelled from the spec: the number in the name \<open>New Design #n\<close> of section 4.3, which
  the missing \<open>use-auth.ts\<close> prints in decimal digits.
\<close>

fun digits :: "nat \<Rightarrow> string" where
  "digits n =
     (if n < 10 then [char_of (48 + n)]
      else digits (n div 10) @ [char_of (48 + n mod 10)])"

declare digits.simps [simp del]

text \<open>
  Modelled from the spec: the selection among existing projects, which is part of the
  missing \<open>use-auth.ts\<close>. Section 4.3: select the one with the most recent
  \<open>updatedAt\<close>; section 6: the order of the listing is not guaranteed. The first
  project with the greatest \<open>updatedAt\<close> is taken.
\<close>

fun most_recent :: "Project \<Rightarrow> Project list \<Rightarrow> Project" where
  "most_recent p [] = p"
| "most_recent p (q # qs) = most_recent (if updatedAt p < updatedAt q then q else p) qs"

text \<open>
  Modelled from the spec: the test of the missing \<open>use-auth.ts\<close> for anonymous
  work. Section 3: it is present only if its \<open>messages\<close> are non-empty.
\<close>

definition present_work :: "AnonymousWork option \<Rightarrow> AnonymousWork option" where
  "present_work w =
     (case w of None \<Rightarrow> None | Some a \<Rightarrow> if messages a \<noteq> [] then Some a else None)"

text \<open>
  Modelled from the spec: the resolver of the missing \<open>use-auth.ts\<close>, section 4.3. Three
  terminal branches: anonymous work becomes a project, is cleared, and is navigated to;
  else the most recent existing project is navigated to; else a fresh project is
  created and navigated to. A failure of a collaborator ends the resolver with that
  failure.
\<close>

definition handlePostSignIn :: "env \<Rightarrow> hook_state \<Rightarrow> hook_state \<times> (js_error + unit)" where
  "handlePostSignIn c s =
     (let s1 = log_event GetAnonWorkData s
      in case getAnonWorkData c of
           Inl e \<Rightarrow> (s1, Inl e)
         | Inr w \<Rightarrow>
            (case present_work w of
               Some a \<Rightarrow>
               (let spec = \<lparr>proj_name = ''Design from '' @ localeTime c,
                            proj_messages = messages a,
                            proj_data = fileSystemData a\<rparr>;
                    s2 = log_event (CreateProject spec) s1
                in case createProject c spec of
                     Inl e \<Rightarrow> (s2, Inl e)
                   | Inr p \<Rightarrow>
                       (log_event (Navigate (''/'' @ project_id p))
                          (log_event ClearAnonWork s2), Inr ()))
             | None \<Rightarrow>
               (let s2 = log_event GetProjects s1
                in case getProjects c of
                     Inl e \<Rightarrow> (s2, Inl e)
                   | Inr [] \<Rightarrow>
                       (let spec = \<lparr>proj_name = ''New Design #''
                                        @ digits (randomDraw c mod 100000),
                                    proj_messages = [], proj_data = []\<rparr>;
                            s3 = log_event (CreateProject spec) s2
                        in case createProject c spec of
                             Inl e \<Rightarrow> (s3, Inl e)
                           | Inr p \<Rightarrow>
                               (log_event (Navigate (''/'' @ project_id p)) s3, Inr ()))
                   | Inr (p # ps) \<Rightarrow>
                       (log_event (Navigate (''/'' @ project_id (most_recent p ps))) s2,
                        Inr ()))))"

text \<open>
  Modelled from the spec: one authentication attempt of the missing \<open>use-auth.ts\<close>,
  sections 4.3 and 5. The flag is set before the attempt; the resolver runs only when
  the authentication call reports success; the flag is cleared on every path, and a
  failure surfaces to the caller after that.
\<close>

definition attempt ::
  "event \<Rightarrow> (js_error + AuthResult) \<Rightarrow> env \<Rightarrow> hook_state
     \<Rightarrow> hook_state \<times> (js_error + AuthResult)" where
  "attempt call outcome c s =
     (let s1 = log_event call (setIsLoading True s);
          (s2, r) =
            (case outcome of
               Inl e \<Rightarrow> (s1, Inl e)
             | Inr res \<Rightarrow>
                 if success res then
                   (case handlePostSignIn c s1 of
                      (s', Inl e) \<Rightarrow> (s', Inl e)
                    | (s', Inr u) \<Rightarrow> (s', Inr res))
                 else (s1, Inr res))
      in (setIsLoading False s2, r))"

text \<open>
  Modelled from the spec: \<open>signIn\<close> and \<open>signUp\<close> of the missing \<open>use-auth.ts\<close>,
  section 6; each is an attempt on its own authentication collaborator.
\<close>

definition signIn ::
  "env \<Rightarrow> string \<Rightarrow> string \<Rightarrow> hook_state \<Rightarrow> hook_state \<times> (js_error + AuthResult)" where
  "signIn c email password s =
     attempt (SignInCall email password) (signInAction c email password) c s"

definition signUp ::
  "env \<Rightarrow> string \<Rightarrow> string \<Rightarrow> hook_state \<Rightarrow> hook_state \<times> (js_error + AuthResult)" where
  "signUp c email password s =
     attempt (SignUpCall email password) (signUpAction c email password) c s"

text \<open>
  Modelled from the spec: what an attempt of the missing \<open>use-auth.ts\<close> did, as the
  events it added to the trace it started from.
\<close>

definition effects :: "hook_state \<Rightarrow> hook_state \<Rightarrow> event list" where
  "effects s s' = drop (length (trace s)) (trace s')"

text \<open>
  Modelled from the spec: the four side effects of the resolver of the missing
  \<open>use-auth.ts\<close> that section 8 names, and the project creation among them.
\<close>

fun resolver_effect :: "event \<Rightarrow> bool" where
  "resolver_effect GetAnonWorkData = True"
| "resolver_effect GetProjects = True"
| "resolver_effect (CreateProject sp) = True"
| "resolver_effect (Navigate u) = True"
| "resolver_effect ev = False"

fun is_create :: "event \<Rightarrow> bool" where
  "is_create (CreateProject sp) = True"
| "is_create ev = False"

section \<open>Properties of the extraction\<close>

lemma split_not_Nil: "split c xs \<noteq> []"
  by (induction xs) (auto split: list.splits)

lemma split_append_sep: "split c (xs @ c # ys) = split c xs @ split c ys"
proof (induction xs)
  case Nil
  show ?case by simp
next
  case (Cons x xs)
  obtain p ps where s: "split c xs = p # ps"
    using split_not_Nil [of c xs] by (cases "split c xs") auto
  show ?case using Cons s by simp
qed

lemma split_no_sep: "c \<notin> set xs \<Longrightarrow> split c xs = [xs]"
  by (induction xs) auto

lemma split_replicate: "split c (replicate n c) = replicate (Suc n) []"
  by (induction n) auto

lemma filter_replicate_Nil: "filter (\<lambda>s. s \<noteq> []) (replicate n []) = []"
  by (induction n) auto

lemma split_segment_tail:
  assumes "c \<notin> set r"
  shows "filter (\<lambda>s. s \<noteq> []) (split c (r @ replicate n c)) = (if r = [] then [] else [r])"
proof (cases n)
  case 0
  then show ?thesis using assms by (simp add: split_no_sep)
next
  case (Suc m)
  have "split c (r @ replicate n c) = split c r @ split c (replicate m c)"
    using Suc split_append_sep [of c r "replicate m c"] by simp
  then show ?thesis
    using assms by (simp add: split_no_sep split_replicate filter_replicate_Nil)
qed

lemma last_nonempty_segment:
  assumes "pre = [] \<or> last pre = c" and "r \<noteq> []" and "c \<notin> set r"
  shows "\<exists>ss. filter (\<lambda>s. s \<noteq> []) (split c (pre @ r @ replicate n c)) = ss @ [r]"
proof (cases "pre = []")
  case True
  then show ?thesis using assms split_segment_tail [of c r n] by simp
next
  case False
  then obtain q where q: "pre = q @ [c]"
    using assms(1) by (metis append_butlast_last_id)
  have "split c (pre @ r @ replicate n c) = split c q @ split c (r @ replicate n c)"
    using q split_append_sep [of c q "r @ replicate n c"] by simp
  then show ?thesis
    using assms split_segment_tail [of c r n] by simp
qed

lemma extractFileName_segment:
  assumes "pre = [] \<or> last pre = CHR ''/''" and "r \<noteq> []" and "CHR ''/'' \<notin> set r"
  shows "extractFileName (pre @ r @ replicate n CHR ''/'') = r"
proof -
  obtain ss where ss:
    "filter (\<lambda>s. s \<noteq> []) (split CHR ''/'' (pre @ r @ replicate n CHR ''/'')) = ss @ [r]"
    using last_nonempty_segment [OF assms] by blast
  have ne: "pre @ r @ replicate n CHR ''/'' \<noteq> ''/''"
  proof
    assume e: "pre @ r @ replicate n CHR ''/'' = ''/''"
    have "set r \<subseteq> set (pre @ r @ replicate n CHR ''/'')" by auto
    then have "set r \<subseteq> {CHR ''/''}" using e by simp
    then show False using assms(2,3) by (cases r) auto
  qed
  show ?thesis
    unfolding extractFileName_def using ss ne assms(2) by (simp add: Let_def)
qed

lemma all_sep_replicate: "(\<forall>x\<in>set p. x = c) \<Longrightarrow> p = replicate (length p) c"
  by (induction p) auto

lemma extractFileName_all_sep:
  assumes "\<forall>x\<in>set p. x = CHR ''/''"
  shows "extractFileName p = ''/''"
proof -
  have "p = replicate (length p) CHR ''/''"
    using assms by (rule all_sep_replicate)
  then have "split CHR ''/'' p = replicate (Suc (length p)) []"
    using split_replicate [of "CHR ''/''" "length p"] by simp
  then show ?thesis
    unfolding extractFileName_def by (simp add: Let_def filter_replicate_Nil)
qed

text \<open>Every string either consists of separators only or ends in a last segment.\<close>

lemma last_rev_dropWhile:
  "rev (dropWhile (\<lambda>x. x \<noteq> c) d) = [] \<or> last (rev (dropWhile (\<lambda>x. x \<noteq> c) d)) = c"
proof (induction d)
  case Nil
  show ?case by simp
next
  case (Cons a d)
  show ?case
  proof (cases "a = c")
    case True
    then show ?thesis by simp
  next
    case False
    then show ?thesis using Cons by simp
  qed
qed

lemma takeWhile_sep_replicate:
  "takeWhile (\<lambda>x. x = c) xs = replicate (length (takeWhile (\<lambda>x. x = c) xs)) c"
  by (induction xs) auto

lemma takeWhile_after_dropWhile_ne:
  "\<not> (\<forall>x\<in>set xs. x = c) \<Longrightarrow>
     takeWhile (\<lambda>x. x \<noteq> c) (dropWhile (\<lambda>x. x = c) xs) \<noteq> []"
  by (induction xs) auto

lemma last_segment_exists:
  assumes "\<not> (\<forall>x\<in>set p. x = c)"
  shows "\<exists>pre r n. p = pre @ r @ replicate n c \<and> (pre = [] \<or> last pre = c)
           \<and> r \<noteq> [] \<and> c \<notin> set r"
proof -
  define t where "t = takeWhile (\<lambda>x. x = c) (rev p)"
  define d where "d = dropWhile (\<lambda>x. x = c) (rev p)"
  define s where "s = takeWhile (\<lambda>x. x \<noteq> c) d"
  define q where "q = dropWhile (\<lambda>x. x \<noteq> c) d"
  have t: "rev t = replicate (length t) c"
    using takeWhile_sep_replicate [of c "rev p"] unfolding t_def
    by (metis rev_replicate)
  have sne: "rev s \<noteq> []"
    using takeWhile_after_dropWhile_ne [of "rev p" c] assms unfolding s_def d_def by simp
  have "rev p = t @ d" unfolding t_def d_def by simp
  moreover have "d = s @ q" unfolding s_def q_def by simp
  ultimately have "rev p = t @ s @ q" by simp
  then have "rev (rev p) = rev (t @ s @ q)" by (rule arg_cong)
  then have p: "p = rev q @ rev s @ replicate (length t) c" using t by simp
  have q: "rev q = [] \<or> last (rev q) = c"
    unfolding q_def by (rule last_rev_dropWhile)
  have s: "c \<notin> set (rev s)" unfolding s_def by (auto dest: set_takeWhileD)
  show ?thesis
    using p q sne s by blast
qed

text \<open>
  C1. For every input string \<open>p\<close>, \<open>extractFileName p\<close> is the last non-empty
  segment of \<open>p\<close> between separators \<open>/\<close>: \<open>p\<close> is some prefix that is empty or ends
  in a separator, then the result (non-empty, free of separators), then separators
  only. When \<open>p\<close> has no non-empty segment (it is empty, is \<open>/\<close>, or consists of
  separators only) the result is the root marker \<open>/\<close>. On a string the function
  raises nothing.
\<close>

theorem extractFileName_last_segment:
  "extractFileName_any (JStr p) = Inr (extractFileName p) \<and>
   (if \<forall>x\<in>set p. x = CHR ''/'' then extractFileName p = ''/''
    else \<exists>pre n. p = pre @ extractFileName p @ replicate n CHR ''/''
           \<and> (pre = [] \<or> last pre = CHR ''/'')
           \<and> extractFileName p \<noteq> [] \<and> CHR ''/'' \<notin> set (extractFileName p))"
proof -
  have a: "extractFileName_any (JStr p) = Inr (extractFileName p)"
    by (simp add: extractFileName_any_def)
  show ?thesis
  proof (cases "\<forall>x\<in>set p. x = CHR ''/''")
    case True
    then show ?thesis using a extractFileName_all_sep [of p] by simp
  next
    case False
    then obtain pre r n where d: "p = pre @ r @ replicate n CHR ''/''"
        "pre = [] \<or> last pre = CHR ''/''" "r \<noteq> []" "CHR ''/'' \<notin> set r"
      using last_segment_exists [of p "CHR ''/''"] by blast
    have "extractFileName p = r"
      using extractFileName_segment [OF d(2,3,4), of n] d(1) by simp
    then show ?thesis using a False d by auto
  qed
qed

theorem extractFileName_last_segment_witness:
  "extractFileName ''//'' = ''/'' \<and>
   (\<exists>pre n. ''/src/a.tsx/'' = pre @ extractFileName ''/src/a.tsx/'' @ replicate n CHR ''/''
      \<and> (pre = [] \<or> last pre = CHR ''/'')
      \<and> extractFileName ''/src/a.tsx/'' \<noteq> []
      \<and> CHR ''/'' \<notin> set (extractFileName ''/src/a.tsx/''))"
proof -
  have h1: "\<forall>x\<in>set ''//''. x = CHR ''/''" by simp
  have h2: "\<not> (\<forall>x\<in>set ''/src/a.tsx/''. x = CHR ''/'')" by simp
  show ?thesis
    using extractFileName_last_segment [of "''//''"]
      extractFileName_last_segment [of "''/src/a.tsx/''"] h1 h2
    by (simp only: if_True if_False simp_thms)
qed

section \<open>Properties of the classifier\<close>

lemma js_or_has_prop: "get_prop a k = Some v \<Longrightarrow> js_or (Some a) d = a"
  by (cases a) (simp_all add: js_or_def)

lemma js_or_empty_cases:
  "(\<exists>s. js_or x (JStr []) = JStr s) \<or>
   (truthy (js_or x (JStr [])) \<and> (\<forall>s. js_or x (JStr []) \<noteq> JStr s))"
  by (cases x) (auto simp: js_or_def)

lemma extractFileName_any_js_or:
  "extractFileName_any (js_or x (JStr [])) =
     (case js_or x (JStr []) of JStr s \<Rightarrow> Inr (extractFileName s) | _ \<Rightarrow> Inl TypeError)"
  using js_or_empty_cases [of x]
  by (auto simp: extractFileName_any_def split: json.splits)

lemma extractFileName_any_JStr: "extractFileName_any (JStr s) = Inr (extractFileName s)"
  by (simp add: extractFileName_any_def)

text \<open>
  The error path of the classifier: a \<open>path\<close> that is truthy and not a string reaches
  \<open>split\<close> in \<open>extractFileName\<close>, and both recognised tools raise a TypeError.
\<close>

lemma non_string_path_raises:
  assumes "get_prop (js_or a (JObj [])) ''path'' = Some v" and "truthy v"
    and "\<forall>s. v \<noteq> JStr s"
  shows "parseToolInvocation ''str_replace_editor'' a = Inl TypeError"
    and "parseToolInvocation ''file_manager'' a = Inl TypeError"
proof -
  have o: "js_or (Some v) (JStr []) = v" using assms(2) by (simp add: js_or_def)
  have e: "extractFileName_any v = Inl TypeError"
    using assms(2,3) by (cases v) (simp_all add: extractFileName_any_def)
  show "parseToolInvocation ''str_replace_editor'' a = Inl TypeError"
    by (simp add: parseToolInvocation_def parseStrReplaceEditor_def assms(1) o e)
  show "parseToolInvocation ''file_manager'' a = Inl TypeError"
    by (simp add: parseToolInvocation_def parseFileManager_def assms(1) o e)
qed

lemma numeric_path_raises:
  "parseToolInvocation ''file_manager''
     (Some (JObj [(''command'', JStr ''delete''), (''path'', JNum 5)])) = Inl TypeError"
  by (simp add: parseToolInvocation_def parseFileManager_def js_or_def
      extractFileName_any_def)

text \<open>
  With \<open>path\<close> and \<open>new_path\<close> each a string, or absent or falsy, the classifier
  returns a descriptor for every tool name.
\<close>

lemma parseToolInvocation_returns:
  assumes "js_or (get_prop (js_or a (JObj [])) ''path'') (JStr []) = JStr p"
    and "js_or (get_prop (js_or a (JObj [])) ''new_path'') (JStr []) = JStr n"
  shows "\<exists>m. parseToolInvocation tool a = Inr m"
  using assms
  by (simp add: parseToolInvocation_def parseStrReplaceEditor_def parseFileManager_def
      Let_def extractFileName_any_JStr)

lemma details_parseStrReplaceEditor:
  "parseStrReplaceEditor a = Inr m \<Longrightarrow> details m = None"
  by (auto simp: parseStrReplaceEditor_def Let_def split: sum.splits if_splits)

lemma details_parseFileManager:
  "parseFileManager a = Inr m \<Longrightarrow>
     (details m \<noteq> None) = (get_prop (js_or a (JObj [])) ''command'' = Some (JStr ''rename''))"
  by (auto simp: parseFileManager_def Let_def split: sum.splits if_splits)

lemma parseStrReplaceEditor_edit:
  assumes "get_prop (js_or a (JObj [])) ''command'' = Some (JStr c)"
    and "c = ''str_replace'' \<or> c = ''insert''"
  shows "parseStrReplaceEditor a =
           (case js_or (get_prop (js_or a (JObj [])) ''path'') (JStr []) of
              JStr p \<Rightarrow>
                Inr \<lparr>action = ''Editing'', fileName = extractFileName p, filePath = p,
                     icon = FileEdit, colorClass = ''text-amber-600'',
                     bgColorClass = ''bg-amber-50'',
                     borderColorClass = ''border-amber-200'', details = None\<rparr>
            | _ \<Rightarrow> Inl TypeError)"
  using assms
  by (auto simp: parseStrReplaceEditor_def Let_def extractFileName_any_js_or
      split: json.splits)

text \<open>
  C2 as stated fails: for an unrecognised tool name and the empty record the
  \<open>fileName\<close> is the tool name, not the root marker.
\<close>
theorem null_args_fileName_counterexample:
  "map_sum id fileName (parseToolInvocation ''unknown_tool'' (Some (JObj [])))
     \<noteq> Inr ''/''"
  by (simp add: parseToolInvocation_def)

text \<open>
  C2, amended. For every tool name and for arguments that are undefined, \<open>null\<close> or the
  empty record, \<open>parseToolInvocation\<close> raises nothing and returns a descriptor with an
  empty \<open>filePath\<close>; its \<open>fileName\<close> is the root marker for the two recognised tools
  and the tool name itself for every other tool.
\<close>
theorem null_or_empty_args:
  assumes "a = None \<or> a = Some JNull \<or> a = Some (JObj [])"
  shows "\<exists>m. parseToolInvocation tool a = Inr m \<and> filePath m = []
           \<and> fileName m =
               (if tool = ''str_replace_editor'' \<or> tool = ''file_manager'' then ''/''
                else tool)"
proof -
  have o: "js_or a (JObj []) = JObj []" using assms by (auto simp: js_or_def)
  have n: "js_or None (JStr []) = JStr []" by (simp add: js_or_def)
  have e: "extractFileName [] = ''/''" by (simp add: extractFileName_def)
  show ?thesis
    by (simp add: parseToolInvocation_def parseStrReplaceEditor_def parseFileManager_def
        o n extractFileName_any_JStr e Let_def)
qed

theorem null_or_empty_args_witness:
  "(\<exists>m. parseToolInvocation ''file_manager'' (Some JNull) = Inr m \<and> filePath m = []
         \<and> fileName m = ''/'')
   \<and> (\<exists>m. parseToolInvocation ''unknown_tool'' (Some (JObj [])) = Inr m \<and> filePath m = []
         \<and> fileName m = ''unknown_tool'')"
proof -
  have h1: "Some JNull = None \<or> Some JNull = Some JNull \<or> Some JNull = Some (JObj [])"
    by simp
  have h2: "Some (JObj []) = None \<or> Some (JObj []) = Some JNull
              \<or> Some (JObj []) = Some (JObj [])"
    by simp
  show ?thesis
    using null_or_empty_args [OF h1, of "''file_manager''"]
      null_or_empty_args [OF h2, of "''unknown_tool''"]
    by simp
qed

text \<open>
  C7 as stated fails: \<open>args\<close> is untyped, and for a shared \<open>path\<close> that is truthy and
  not a string neither command yields a descriptor; both calls raise a TypeError.
\<close>
theorem edit_commands_non_string_path_counterexample:
  "parseToolInvocation ''str_replace_editor''
     (Some (JObj [(''command'', JStr ''str_replace''), (''path'', JNum 5)])) = Inl TypeError
   \<and> parseToolInvocation ''str_replace_editor''
     (Some (JObj [(''command'', JStr ''insert''), (''path'', JNum 5)])) = Inl TypeError"
  by (simp add: parseToolInvocation_def parseStrReplaceEditor_def js_or_def
      extractFileName_any_def)

text \<open>
  C7, amended. For two argument records with the same \<open>path\<close>, one with command
  \<open>str_replace\<close> and one with command \<open>insert\<close>, the file-editor tool gives the same
  outcome; when the path is a string, or is absent or falsy (so that
  \<^verbatim>\<open>path || ""\<close> is a string), both yield the same descriptor, with action
  \<open>Editing\<close>, the icon \<open>FileEdit\<close> and the amber colour triad.
\<close>
theorem edit_commands_same_descriptor:
  assumes "get_prop a ''command'' = Some (JStr ''str_replace'')"
    and "get_prop b ''command'' = Some (JStr ''insert'')"
    and "get_prop a ''path'' = get_prop b ''path''"
  shows "parseToolInvocation ''str_replace_editor'' (Some a)
           = parseToolInvocation ''str_replace_editor'' (Some b)
         \<and> (\<forall>p. js_or (get_prop a ''path'') (JStr []) = JStr p \<longrightarrow>
              parseToolInvocation ''str_replace_editor'' (Some a) =
                Inr \<lparr>action = ''Editing'', fileName = extractFileName p, filePath = p,
                     icon = FileEdit, colorClass = ''text-amber-600'',
                     bgColorClass = ''bg-amber-50'',
                     borderColorClass = ''border-amber-200'', details = None\<rparr>)"
proof -
  have a: "js_or (Some a) (JObj []) = a" using assms(1) by (rule js_or_has_prop)
  have b: "js_or (Some b) (JObj []) = b" using assms(2) by (rule js_or_has_prop)
  have pa: "parseStrReplaceEditor (Some a) =
           (case js_or (get_prop a ''path'') (JStr []) of
              JStr p \<Rightarrow>
                Inr \<lparr>action = ''Editing'', fileName = extractFileName p, filePath = p,
                     icon = FileEdit, colorClass = ''text-amber-600'',
                     bgColorClass = ''bg-amber-50'',
                     borderColorClass = ''border-amber-200'', details = None\<rparr>
            | _ \<Rightarrow> Inl TypeError)"
    using parseStrReplaceEditor_edit [of "Some a" "''str_replace''"] assms(1) a by simp
  have pb: "parseStrReplaceEditor (Some b) =
           (case js_or (get_prop b ''path'') (JStr []) of
              JStr p \<Rightarrow>
                Inr \<lparr>action = ''Editing'', fileName = extractFileName p, filePath = p,
                     icon = FileEdit, colorClass = ''text-amber-600'',
                     bgColorClass = ''bg-amber-50'',
                     borderColorClass = ''border-amber-200'', details = None\<rparr>
            | _ \<Rightarrow> Inl TypeError)"
    using parseStrReplaceEditor_edit [of "Some b" "''insert''"] assms(2) b by simp
  show ?thesis
    using pa pb assms(3) by (simp add: parseToolInvocation_def)
qed

theorem edit_commands_same_descriptor_witness:
  "parseToolInvocation ''str_replace_editor''
     (Some (JObj [(''command'', JStr ''str_replace''), (''path'', JStr ''/components/Button.tsx''),
                  (''old_str'', JStr ''old''), (''new_str'', JStr ''new'')]))
   = parseToolInvocation ''str_replace_editor''
     (Some (JObj [(''command'', JStr ''insert''), (''path'', JStr ''/components/Button.tsx''),
                  (''insert_line'', JNum 5), (''new_str'', JStr ''x'')]))
   \<and> parseToolInvocation ''str_replace_editor''
     (Some (JObj [(''command'', JStr ''str_replace''), (''path'', JStr ''/components/Button.tsx''),
                  (''old_str'', JStr ''old''), (''new_str'', JStr ''new'')]))
   = Inr \<lparr>action = ''Editing'', fileName = extractFileName ''/components/Button.tsx'',
          filePath = ''/components/Button.tsx'',
          icon = FileEdit, colorClass = ''text-amber-600'',
          bgColorClass = ''bg-amber-50'',
          borderColorClass = ''border-amber-200'', details = None\<rparr>"
proof -
  let ?a = "JObj [(''command'', JStr ''str_replace''), (''path'', JStr ''/components/Button.tsx''),
                  (''old_str'', JStr ''old''), (''new_str'', JStr ''new'')]"
  let ?b = "JObj [(''command'', JStr ''insert''), (''path'', JStr ''/components/Button.tsx''),
                  (''insert_line'', JNum 5), (''new_str'', JStr ''x'')]"
  have h1: "get_prop ?a ''command'' = Some (JStr ''str_replace'')" by simp
  have h2: "get_prop ?b ''command'' = Some (JStr ''insert'')" by simp
  have h3: "get_prop ?a ''path'' = get_prop ?b ''path''" by simp
  have h4: "js_or (get_prop ?a ''path'') (JStr []) = JStr ''/components/Button.tsx''"
    by (simp add: js_or_def)
  show ?thesis
    using edit_commands_same_descriptor [OF h1 h2 h3] h4 by blast
qed

text \<open>
  C8. For every tool name other than \<open>str_replace_editor\<close> and \<open>file_manager\<close>, and
  for any arguments, \<open>parseToolInvocation\<close> returns the generic descriptor: action
  \<open>Running\<close>, \<open>fileName\<close> the tool name itself, \<open>filePath\<close> the empty string.
\<close>
theorem unknown_tool_fallback:
  assumes "tool \<noteq> ''str_replace_editor''" and "tool \<noteq> ''file_manager''"
  shows "parseToolInvocation tool a =
           Inr \<lparr>action = ''Running'', fileName = tool, filePath = [],
                icon = FileEdit, colorClass = ''text-neutral-600'',
                bgColorClass = ''bg-neutral-50'',
                borderColorClass = ''border-neutral-200'', details = None\<rparr>"
  using assms by (simp add: parseToolInvocation_def)

theorem unknown_tool_fallback_witness:
  "parseToolInvocation ''unknown_tool'' (Some (JObj [])) =
     Inr \<lparr>action = ''Running'', fileName = ''unknown_tool'', filePath = [],
          icon = FileEdit, colorClass = ''text-neutral-600'',
          bgColorClass = ''bg-neutral-50'',
          borderColorClass = ''border-neutral-200'', details = None\<rparr>"
proof -
  have h1: "''unknown_tool'' \<noteq> ''str_replace_editor''" by simp
  have h2: "''unknown_tool'' \<noteq> ''file_manager''" by simp
  show ?thesis by (rule unknown_tool_fallback [OF h1 h2])
qed

text \<open>
  C9 as stated fails: \<open>args\<close> is untyped, and a rename whose \<open>new_path\<close> is truthy and
  not a string yields no descriptor; the call raises a TypeError.
\<close>
theorem rename_non_string_new_path_counterexample:
  "parseToolInvocation ''file_manager''
     (Some (JObj [(''command'', JStr ''rename''), (''path'', JStr ''/a.tsx''),
                  (''new_path'', JNum 7)])) = Inl TypeError"
  by (simp add: parseToolInvocation_def parseFileManager_def js_or_def
      extractFileName_any_def)

text \<open>
  C9, amended. For the file-manager tool with command \<open>rename\<close>, and \<open>path\<close> and
  \<open>new_path\<close> each a string, or absent or falsy (so that \<^verbatim>\<open>path || ""\<close> and
  \<^verbatim>\<open>new_path || ""\<close> are strings), \<open>fileName\<close> is the extracted file name of
  \<open>path\<close> and \<open>details\<close> is \<open>to\<close>, a space, and the extracted file name of
  \<open>new_path\<close>. Over the whole classifier, a returned descriptor has \<open>details\<close>
  exactly in this branch.
\<close>
theorem rename_details:
  "(get_prop (js_or a (JObj [])) ''command'' = Some (JStr ''rename'') \<longrightarrow>
    js_or (get_prop (js_or a (JObj [])) ''path'') (JStr []) = JStr p \<longrightarrow>
    js_or (get_prop (js_or a (JObj [])) ''new_path'') (JStr []) = JStr n \<longrightarrow>
    parseToolInvocation ''file_manager'' a =
      Inr \<lparr>action = ''Renaming'', fileName = extractFileName p, filePath = p,
           icon = FileSymlink, colorClass = ''text-purple-600'',
           bgColorClass = ''bg-purple-50'',
           borderColorClass = ''border-purple-200'',
           details = Some (''to '' @ extractFileName n)\<rparr>)
   \<and> (parseToolInvocation tool b = Inr m \<longrightarrow>
        (details m \<noteq> None) =
          (tool = ''file_manager''
           \<and> get_prop (js_or b (JObj [])) ''command'' = Some (JStr ''rename'')))"
proof (intro conjI impI)
  assume "get_prop (js_or a (JObj [])) ''command'' = Some (JStr ''rename'')"
    and "js_or (get_prop (js_or a (JObj [])) ''path'') (JStr []) = JStr p"
    and "js_or (get_prop (js_or a (JObj [])) ''new_path'') (JStr []) = JStr n"
  then show "parseToolInvocation ''file_manager'' a =
      Inr \<lparr>action = ''Renaming'', fileName = extractFileName p, filePath = p,
           icon = FileSymlink, colorClass = ''text-purple-600'',
           bgColorClass = ''bg-purple-50'',
           borderColorClass = ''border-purple-200'',
           details = Some (''to '' @ extractFileName n)\<rparr>"
    by (simp add: parseToolInvocation_def parseFileManager_def extractFileName_any_JStr)
next
  assume r: "parseToolInvocation tool b = Inr m"
  show "(details m \<noteq> None) =
          (tool = ''file_manager''
           \<and> get_prop (js_or b (JObj [])) ''command'' = Some (JStr ''rename''))"
  proof (cases "tool = ''str_replace_editor''")
    case True
    then show ?thesis using r details_parseStrReplaceEditor [of b m]
      by (simp add: parseToolInvocation_def)
  next
    case False
    show ?thesis
    proof (cases "tool = ''file_manager''")
      case True
      then show ?thesis using r details_parseFileManager [of b m]
        by (simp add: parseToolInvocation_def)
    next
      case f: False
      then show ?thesis using r False by (auto simp: parseToolInvocation_def)
    qed
  qed
qed

theorem rename_details_witness:
  "parseToolInvocation ''file_manager''
     (Some (JObj [(''command'', JStr ''rename''), (''path'', JStr ''/a.tsx''),
                  (''new_path'', JStr ''/b.tsx'')]))
   = Inr \<lparr>action = ''Renaming'', fileName = ''a.tsx'', filePath = ''/a.tsx'',
          icon = FileSymlink, colorClass = ''text-purple-600'',
          bgColorClass = ''bg-purple-50'',
          borderColorClass = ''border-purple-200'',
          details = Some ''to b.tsx''\<rparr>
   \<and> details \<lparr>action = ''Renaming'', fileName = ''a.tsx'', filePath = ''/a.tsx'',
          icon = FileSymlink, colorClass = ''text-purple-600'',
          bgColorClass = ''bg-purple-50'',
          borderColorClass = ''border-purple-200'',
          details = Some ''to b.tsx''\<rparr> \<noteq> None"
proof -
  let ?a = "Some (JObj [(''command'', JStr ''rename''), (''path'', JStr ''/a.tsx''),
                  (''new_path'', JStr ''/b.tsx'')])"
  let ?m = "\<lparr>action = ''Renaming'', fileName = ''a.tsx'', filePath = ''/a.tsx'',
          icon = FileSymlink, colorClass = ''text-purple-600'',
          bgColorClass = ''bg-purple-50'',
          borderColorClass = ''border-purple-200'',
          details = Some ''to b.tsx''\<rparr>"
  have h1: "get_prop (js_or ?a (JObj [])) ''command'' = Some (JStr ''rename'')"
    by (simp add: js_or_def)
  have h2: "js_or (get_prop (js_or ?a (JObj [])) ''path'') (JStr []) = JStr ''/a.tsx''"
    by (simp add: js_or_def)
  have h3: "js_or (get_prop (js_or ?a (JObj [])) ''new_path'') (JStr []) = JStr ''/b.tsx''"
    by (simp add: js_or_def)
  have e1: "extractFileName ''/a.tsx'' = ''a.tsx''" by (simp add: extractFileName_def)
  have e2: "extractFileName ''/b.tsx'' = ''b.tsx''" by (simp add: extractFileName_def)
  have r: "parseToolInvocation ''file_manager'' ?a = Inr ?m"
    using rename_details [of ?a "''/a.tsx''" "''/b.tsx''"] h1 h2 h3 e1 e2 by simp
  show ?thesis
    using rename_details [of ?a "''/a.tsx''" "''/b.tsx''" "''file_manager''" ?a ?m] r h1
    by simp
qed

section \<open>Properties of the tool-call display\<close>

text \<open>
  C10. \<open>ToolCallDisplay\<close> renders a tool invocation whenever the classifier returns
  its descriptor (and raises the classifier's error otherwise). For every tool
  invocation it renders, the completed indicator \<open>CheckCircle2\<close> is shown if and only
  if the state is \<open>result\<close> and the result is defined, and the spinner \<open>Loader2\<close> is
  shown otherwise; in particular with state \<open>result\<close> and an undefined result the
  spinner is shown.
\<close>
theorem completed_indicator:
  "(\<forall>m. parseToolInvocation (toolName ti) (args ti) = Inr m \<longrightarrow>
      (\<exists>h. ToolCallDisplay ti = Inr h
         \<and> (stateIcon h = CheckCircle2) = (state ti = Result \<and> result ti \<noteq> None)
         \<and> (stateIcon h = Loader2) = (\<not> (state ti = Result \<and> result ti \<noteq> None))))
   \<and> (\<forall>e. parseToolInvocation (toolName ti) (args ti) = Inl e \<longrightarrow>
         ToolCallDisplay ti = Inl e)
   \<and> (\<forall>h. ToolCallDisplay ti = Inr h \<longrightarrow>
         (stateIcon h = CheckCircle2) = (state ti = Result \<and> result ti \<noteq> None)
         \<and> (state ti = Result \<and> result ti = None \<longrightarrow> stateIcon h = Loader2))"
proof (intro conjI)
  show "\<forall>m. parseToolInvocation (toolName ti) (args ti) = Inr m \<longrightarrow>
      (\<exists>h. ToolCallDisplay ti = Inr h
         \<and> (stateIcon h = CheckCircle2) = (state ti = Result \<and> result ti \<noteq> None)
         \<and> (stateIcon h = Loader2) = (\<not> (state ti = Result \<and> result ti \<noteq> None)))"
    by (simp add: ToolCallDisplay_def isCompleted_def)
  show "\<forall>e. parseToolInvocation (toolName ti) (args ti) = Inl e \<longrightarrow>
         ToolCallDisplay ti = Inl e"
    by (simp add: ToolCallDisplay_def)
  show "\<forall>h. ToolCallDisplay ti = Inr h \<longrightarrow>
         (stateIcon h = CheckCircle2) = (state ti = Result \<and> result ti \<noteq> None)
         \<and> (state ti = Result \<and> result ti = None \<longrightarrow> stateIcon h = Loader2)"
  proof (intro allI impI)
    fix h
    assume r: "ToolCallDisplay ti = Inr h"
    then obtain m where "parseToolInvocation (toolName ti) (args ti) = Inr m"
      by (auto simp: ToolCallDisplay_def split: sum.splits)
    then have "stateIcon h = (if isCompleted ti then CheckCircle2 else Loader2)"
      using r by (auto simp: ToolCallDisplay_def)
    then show "(stateIcon h = CheckCircle2) = (state ti = Result \<and> result ti \<noteq> None)
         \<and> (state ti = Result \<and> result ti = None \<longrightarrow> stateIcon h = Loader2)"
      by (simp add: isCompleted_def)
  qed
qed

theorem completed_indicator_witness:
  "(\<exists>h. ToolCallDisplay \<lparr>toolCallId = ''call_130'', toolName = ''str_replace_editor'',
            args = Some (JObj [(''command'', JStr ''create''), (''path'', JStr ''/test.tsx'')]),
            state = Result, result = Some (JStr ''Success'')\<rparr> = Inr h
         \<and> stateIcon h = CheckCircle2)
   \<and> (\<exists>h. ToolCallDisplay \<lparr>toolCallId = ''call_130'', toolName = ''str_replace_editor'',
            args = Some (JObj [(''command'', JStr ''create''), (''path'', JStr ''/test.tsx'')]),
            state = Result, result = None\<rparr> = Inr h
         \<and> stateIcon h = Loader2)
   \<and> (\<exists>h. ToolCallDisplay \<lparr>toolCallId = ''call_128'', toolName = ''str_replace_editor'',
            args = Some (JObj [(''command'', JStr ''create''), (''path'', JStr ''/test.tsx'')]),
            state = Call, result = None\<rparr> = Inr h
         \<and> stateIcon h = Loader2)"
proof -
  let ?args = "Some (JObj [(''command'', JStr ''create''), (''path'', JStr ''/test.tsx'')])"
  let ?t1 = "\<lparr>toolCallId = ''call_130'', toolName = ''str_replace_editor'',
            args = ?args, state = Result, result = Some (JStr ''Success'')\<rparr>"
  let ?t2 = "\<lparr>toolCallId = ''call_130'', toolName = ''str_replace_editor'',
            args = ?args, state = Result, result = None\<rparr>"
  let ?t3 = "\<lparr>toolCallId = ''call_128'', toolName = ''str_replace_editor'',
            args = ?args, state = Call, result = None\<rparr>"
  let ?m = "\<lparr>action = ''Creating'', fileName = ''test.tsx'', filePath = ''/test.tsx'',
            icon = FilePlus, colorClass = ''text-green-600'',
            bgColorClass = ''bg-green-50'',
            borderColorClass = ''border-green-200'', details = None\<rparr>"
  have p: "parseToolInvocation ''str_replace_editor'' ?args = Inr ?m"
    by (simp add: parseToolInvocation_def parseStrReplaceEditor_def js_or_def
        extractFileName_any_def extractFileName_def)
  have p1: "parseToolInvocation (toolName ?t1) (args ?t1) = Inr ?m" using p by simp
  have p2: "parseToolInvocation (toolName ?t2) (args ?t2) = Inr ?m" using p by simp
  have p3: "parseToolInvocation (toolName ?t3) (args ?t3) = Inr ?m" using p by simp
  have w1: "\<exists>h. ToolCallDisplay ?t1 = Inr h \<and> stateIcon h = CheckCircle2"
    using completed_indicator [of ?t1] p1 by auto
  have w2: "\<exists>h. ToolCallDisplay ?t2 = Inr h \<and> stateIcon h = Loader2"
    using completed_indicator [of ?t2] p2 by auto
  have w3: "\<exists>h. ToolCallDisplay ?t3 = Inr h \<and> stateIcon h = Loader2"
    using completed_indicator [of ?t3] p3 by auto
  show ?thesis using w1 w2 w3 by blast
qed

section \<open>Properties of the post-authentication resolver\<close>

lemma trace_setIsLoading: "trace (setIsLoading b s) = trace s @ [SetIsLoading b]"
  by (simp add: setIsLoading_def log_event_def)

lemma isLoading_setIsLoading: "isLoading (setIsLoading b s) = b"
  by (simp add: setIsLoading_def)

lemma most_recent_mem: "most_recent p ps \<in> set (p # ps)"
  by (induction ps arbitrary: p) auto

lemma most_recent_lower: "updatedAt p \<le> updatedAt (most_recent p ps)"
proof (induction ps arbitrary: p)
  case Nil
  show ?case by simp
next
  case (Cons q qs)
  have "updatedAt p \<le> updatedAt (if updatedAt p < updatedAt q then q else p)" by simp
  also have "\<dots> \<le> updatedAt (most_recent (if updatedAt p < updatedAt q then q else p) qs)"
    by (rule Cons.IH)
  finally show ?case by simp
qed

lemma most_recent_max: "q \<in> set (p # ps) \<Longrightarrow> updatedAt q \<le> updatedAt (most_recent p ps)"
proof (induction ps arbitrary: p)
  case Nil
  then show ?case by simp
next
  case (Cons r rs)
  let ?b = "if updatedAt p < updatedAt r then r else p"
  have b: "updatedAt p \<le> updatedAt ?b" "updatedAt r \<le> updatedAt ?b" by simp_all
  have low: "updatedAt ?b \<le> updatedAt (most_recent ?b rs)" by (rule most_recent_lower)
  consider "q = p" | "q = r" | "q \<in> set rs" using Cons.prems by auto
  then show ?case
  proof cases
    case 1
    then show ?thesis using b(1) low by simp
  next
    case 2
    then show ?thesis using b(2) low by simp
  next
    case 3
    then have "q \<in> set (?b # rs)" by simp
    then have "updatedAt q \<le> updatedAt (most_recent ?b rs)" by (rule Cons.IH)
    then show ?thesis by simp
  qed
qed

lemma attempt_failure:
  assumes "outcome = Inr res" and "\<not> success res"
  shows "attempt call outcome c s =
           (\<lparr>isLoading = False,
             trace = trace s @ [SetIsLoading True, call, SetIsLoading False]\<rparr>, Inr res)"
  using assms
  by (simp add: attempt_def setIsLoading_def log_event_def)

lemma isLoading_attempt: "isLoading (fst (attempt call outcome c s)) = False"
  by (simp add: attempt_def Let_def isLoading_setIsLoading split: prod.splits)

lemma attempt_auth_throws:
  "attempt call (Inl x) c s =
     (\<lparr>isLoading = False,
       trace = trace s @ [SetIsLoading True, call, SetIsLoading False]\<rparr>, Inl x)"
  by (simp add: attempt_def setIsLoading_def log_event_def)

lemma attempt_success:
  assumes "success res"
  shows "attempt call (Inr res) c s =
     (setIsLoading False (fst (handlePostSignIn c (log_event call (setIsLoading True s)))),
      case snd (handlePostSignIn c (log_event call (setIsLoading True s))) of
        Inl e \<Rightarrow> Inl e | Inr u \<Rightarrow> Inr res)"
  using assms
  by (cases "handlePostSignIn c (log_event call (setIsLoading True s))")
     (auto simp: attempt_def Let_def split: sum.splits)

lemma handlePostSignIn_existing:
  assumes "getAnonWorkData c = Inr w" and "present_work w = None"
    and "getProjects c = Inr (p # ps)"
  shows "handlePostSignIn c s =
     (s\<lparr>trace := trace s @ [GetAnonWorkData, GetProjects,
                               Navigate (''/'' @ project_id (most_recent p ps))]\<rparr>, Inr ())"
  using assms by (simp add: handlePostSignIn_def log_event_def)

lemma handlePostSignIn_absent_same:
  assumes "present_work w = None"
  shows "handlePostSignIn (c\<lparr>getAnonWorkData := Inr w\<rparr>) s
           = handlePostSignIn (c\<lparr>getAnonWorkData := Inr None\<rparr>) s"
proof -
  have n: "present_work None = None" by (simp add: present_work_def)
  show ?thesis
  proof (cases "getProjects c")
    case (Inl e)
    then show ?thesis using assms n by (simp add: handlePostSignIn_def)
  next
    case (Inr ps)
    then show ?thesis using assms n
      by (cases ps) (simp_all add: handlePostSignIn_def Let_def)
  qed
qed

lemma snd_handlePostSignIn_state:
  "snd (handlePostSignIn c s) = snd (handlePostSignIn c s')"
proof (cases "getAnonWorkData c")
  case (Inl e)
  then show ?thesis by (simp add: handlePostSignIn_def)
next
  case w: (Inr w)
  show ?thesis
  proof (cases "present_work w")
    case (Some a)
    then show ?thesis using w
      by (cases "createProject c \<lparr>proj_name = ''Design from '' @ localeTime c,
                  proj_messages = messages a, proj_data = fileSystemData a\<rparr>")
         (simp_all add: handlePostSignIn_def Let_def)
  next
    case None
    show ?thesis
    proof (cases "getProjects c")
      case (Inl e)
      then show ?thesis using w None by (simp add: handlePostSignIn_def)
    next
      case ps: (Inr ps)
      show ?thesis
      proof (cases ps)
        case Nil
        then show ?thesis using w None ps
          by (cases "createProject c \<lparr>proj_name = ''New Design #''
                        @ digits (randomDraw c mod 100000),
                      proj_messages = [], proj_data = []\<rparr>")
             (simp_all add: handlePostSignIn_def Let_def)
      next
        case (Cons p rest)
        then show ?thesis using w None ps by (simp add: handlePostSignIn_def)
      qed
    qed
  qed
qed

lemma attempt_propagates:
  assumes "success res" and "snd (handlePostSignIn c s0) = Inl x"
  shows "snd (attempt call (Inr res) c s) = Inl x"
proof -
  have "snd (handlePostSignIn c (log_event call (setIsLoading True s))) = Inl x"
    using assms(2) snd_handlePostSignIn_state [of c s0] by simp
  then show ?thesis using assms(1) by (simp add: attempt_success)
qed

lemma attempt_existing:
  assumes "success res" and "getAnonWorkData c = Inr w" and "present_work w = None"
    and "getProjects c = Inr (p # ps)"
  shows "attempt call (Inr res) c s =
     (\<lparr>isLoading = False,
       trace = trace s @ [SetIsLoading True, call, GetAnonWorkData, GetProjects,
                          Navigate (''/'' @ project_id (most_recent p ps)),
                          SetIsLoading False]\<rparr>, Inr res)"
  using assms(1) handlePostSignIn_existing [OF assms(2,3,4)]
  by (simp add: attempt_success setIsLoading_def log_event_def)

lemma attempt_existing_max:
  assumes "success res" and "getAnonWorkData c = Inr w" and "present_work w = None"
    and "getProjects c = Inr ps" and "ps \<noteq> []"
  shows "\<exists>p\<in>set ps. (\<forall>q\<in>set ps. updatedAt q \<le> updatedAt p)
           \<and> snd (attempt call (Inr res) c s) = Inr res
           \<and> effects s (fst (attempt call (Inr res) c s)) =
               [SetIsLoading True, call, GetAnonWorkData, GetProjects,
                Navigate (''/'' @ project_id p), SetIsLoading False]"
proof -
  obtain p0 rest where ps: "ps = p0 # rest" using assms(5) by (cases ps) auto
  let ?p = "most_recent p0 rest"
  have mem: "?p \<in> set ps" using most_recent_mem [of p0 rest] ps by simp
  have mx: "\<forall>q\<in>set ps. updatedAt q \<le> updatedAt ?p"
    using most_recent_max [of _ p0 rest] ps by blast
  have run: "attempt call (Inr res) c s =
     (\<lparr>isLoading = False,
       trace = trace s @ [SetIsLoading True, call, GetAnonWorkData, GetProjects,
                          Navigate (''/'' @ project_id ?p), SetIsLoading False]\<rparr>, Inr res)"
    using assms(4) ps attempt_existing [OF assms(1,2,3), of p0 rest call s] by simp
  have "effects s (fst (attempt call (Inr res) c s)) =
               [SetIsLoading True, call, GetAnonWorkData, GetProjects,
                Navigate (''/'' @ project_id ?p), SetIsLoading False]"
    using run by (simp add: effects_def)
  then show ?thesis using mem mx run by auto
qed

text \<open>
  C3. For every sign-in or sign-up attempt whose authentication call reports failure
  (\<open>success\<close> is false), the attempt returns that result and its only effects are the
  two settings of the loading flag around the authentication call: the anonymous-work
  read, the project listing, the project creation and the navigation are not invoked.
\<close>
theorem failed_auth_no_resolver:
  "(signInAction c email password = Inr res \<longrightarrow> \<not> success res \<longrightarrow>
      snd (signIn c email password s) = Inr res
      \<and> effects s (fst (signIn c email password s)) =
          [SetIsLoading True, SignInCall email password, SetIsLoading False]
      \<and> \<not> (\<exists>ev\<in>set (effects s (fst (signIn c email password s))). resolver_effect ev))
   \<and> (signUpAction c email password = Inr res \<longrightarrow> \<not> success res \<longrightarrow>
      snd (signUp c email password s) = Inr res
      \<and> effects s (fst (signUp c email password s)) =
          [SetIsLoading True, SignUpCall email password, SetIsLoading False]
      \<and> \<not> (\<exists>ev\<in>set (effects s (fst (signUp c email password s))). resolver_effect ev))"
  by (simp add: signIn_def signUp_def attempt_failure effects_def)

theorem failed_auth_no_resolver_witness:
  "snd (signIn \<lparr>signInAction = (\<lambda>e p. Inr \<lparr>success = False, error = Some ''Invalid credentials''\<rparr>),
          signUpAction = (\<lambda>e p. Inr \<lparr>success = False, error = Some ''Email already registered''\<rparr>),
          getAnonWorkData = Inr None, getProjects = Inr [],
          createProject = (\<lambda>sp. Inr \<lparr>project_id = ''new-project-123'', updatedAt = 0\<rparr>),
          localeTime = ''1:02:03 PM'', randomDraw = 42\<rparr>
        ''test@example.com'' ''wrongpassword'' initial_state)
     = Inr \<lparr>success = False, error = Some ''Invalid credentials''\<rparr>
   \<and> effects initial_state
        (fst (signIn \<lparr>signInAction = (\<lambda>e p. Inr \<lparr>success = False, error = Some ''Invalid credentials''\<rparr>),
          signUpAction = (\<lambda>e p. Inr \<lparr>success = False, error = Some ''Email already registered''\<rparr>),
          getAnonWorkData = Inr None, getProjects = Inr [],
          createProject = (\<lambda>sp. Inr \<lparr>project_id = ''new-project-123'', updatedAt = 0\<rparr>),
          localeTime = ''1:02:03 PM'', randomDraw = 42\<rparr>
        ''test@example.com'' ''wrongpassword'' initial_state))
     = [SetIsLoading True, SignInCall ''test@example.com'' ''wrongpassword'', SetIsLoading False]"
proof -
  let ?c = "\<lparr>signInAction = (\<lambda>e p. Inr \<lparr>success = False, error = Some ''Invalid credentials''\<rparr>),
          signUpAction = (\<lambda>e p. Inr \<lparr>success = False, error = Some ''Email already registered''\<rparr>),
          getAnonWorkData = Inr None, getProjects = Inr [],
          createProject = (\<lambda>sp. Inr \<lparr>project_id = ''new-project-123'', updatedAt = 0\<rparr>),
          localeTime = ''1:02:03 PM'', randomDraw = 42\<rparr>"
  let ?res = "\<lparr>success = False, error = Some ''Invalid credentials''\<rparr>"
  have h1: "signInAction ?c ''test@example.com'' ''wrongpassword'' = Inr ?res" by simp
  have h2: "\<not> success ?res" by simp
  show ?thesis
    using failed_auth_no_resolver
      [of ?c "''test@example.com''" "''wrongpassword''" ?res initial_state] h1 h2
    by blast
qed

text \<open>
  C4. For every successful authentication with no anonymous work present and a
  non-empty list of existing projects, in any order, the attempt navigates to a project
  of the list whose \<open>updatedAt\<close> is the maximum, and never calls the project creation.
\<close>
theorem existing_projects_most_recent:
  assumes "getAnonWorkData c = Inr w" and "present_work w = None"
    and "getProjects c = Inr ps" and "ps \<noteq> []" and "success res"
  shows "(signInAction c email password = Inr res \<longrightarrow>
           (\<exists>p\<in>set ps. (\<forall>q\<in>set ps. updatedAt q \<le> updatedAt p)
              \<and> effects s (fst (signIn c email password s)) =
                  [SetIsLoading True, SignInCall email password, GetAnonWorkData,
                   GetProjects, Navigate (''/'' @ project_id p), SetIsLoading False])
           \<and> \<not> (\<exists>ev\<in>set (effects s (fst (signIn c email password s))). is_create ev))
       \<and> (signUpAction c email password = Inr res \<longrightarrow>
           (\<exists>p\<in>set ps. (\<forall>q\<in>set ps. updatedAt q \<le> updatedAt p)
              \<and> effects s (fst (signUp c email password s)) =
                  [SetIsLoading True, SignUpCall email password, GetAnonWorkData,
                   GetProjects, Navigate (''/'' @ project_id p), SetIsLoading False])
           \<and> \<not> (\<exists>ev\<in>set (effects s (fst (signUp c email password s))). is_create ev))"
proof (intro conjI impI)
  assume a: "signInAction c email password = Inr res"
  obtain p where p: "p \<in> set ps" "\<forall>q\<in>set ps. updatedAt q \<le> updatedAt p"
    "effects s (fst (signIn c email password s)) =
       [SetIsLoading True, SignInCall email password, GetAnonWorkData,
        GetProjects, Navigate (''/'' @ project_id p), SetIsLoading False]"
    using attempt_existing_max [OF assms(5,1,2,3,4), of "SignInCall email password" s] a
    unfolding signIn_def by auto
  show "\<exists>p\<in>set ps. (\<forall>q\<in>set ps. updatedAt q \<le> updatedAt p)
              \<and> effects s (fst (signIn c email password s)) =
                  [SetIsLoading True, SignInCall email password, GetAnonWorkData,
                   GetProjects, Navigate (''/'' @ project_id p), SetIsLoading False]"
    using p by blast
  show "\<not> (\<exists>ev\<in>set (effects s (fst (signIn c email password s))). is_create ev)"
    using p(3) by simp
next
  assume a: "signUpAction c email password = Inr res"
  obtain p where p: "p \<in> set ps" "\<forall>q\<in>set ps. updatedAt q \<le> updatedAt p"
    "effects s (fst (signUp c email password s)) =
       [SetIsLoading True, SignUpCall email password, GetAnonWorkData,
        GetProjects, Navigate (''/'' @ project_id p), SetIsLoading False]"
    using attempt_existing_max [OF assms(5,1,2,3,4), of "SignUpCall email password" s] a
    unfolding signUp_def by auto
  show "\<exists>p\<in>set ps. (\<forall>q\<in>set ps. updatedAt q \<le> updatedAt p)
              \<and> effects s (fst (signUp c email password s)) =
                  [SetIsLoading True, SignUpCall email password, GetAnonWorkData,
                   GetProjects, Navigate (''/'' @ project_id p), SetIsLoading False]"
    using p by blast
  show "\<not> (\<exists>ev\<in>set (effects s (fst (signUp c email password s))). is_create ev)"
    using p(3) by simp
qed

theorem existing_projects_most_recent_witness:
  "\<exists>p\<in>set [\<lparr>project_id = ''project-2'', updatedAt = 20250101\<rparr>,
             \<lparr>project_id = ''project-1'', updatedAt = 20250102\<rparr>].
     (\<forall>q\<in>set [\<lparr>project_id = ''project-2'', updatedAt = 20250101\<rparr>,
               \<lparr>project_id = ''project-1'', updatedAt = 20250102\<rparr>].
        updatedAt q \<le> updatedAt p)
     \<and> effects initial_state
        (fst (signIn \<lparr>signInAction = (\<lambda>e p. Inr \<lparr>success = True, error = None\<rparr>),
          signUpAction = (\<lambda>e p. Inr \<lparr>success = True, error = None\<rparr>),
          getAnonWorkData = Inr None,
          getProjects = Inr [\<lparr>project_id = ''project-2'', updatedAt = 20250101\<rparr>,
                             \<lparr>project_id = ''project-1'', updatedAt = 20250102\<rparr>],
          createProject = (\<lambda>sp. Inr \<lparr>project_id = ''new-project-123'', updatedAt = 0\<rparr>),
          localeTime = ''1:02:03 PM'', randomDraw = 42\<rparr>
        ''test@example.com'' ''password123'' initial_state))
     = [SetIsLoading True, SignInCall ''test@example.com'' ''password123'', GetAnonWorkData,
        GetProjects, Navigate (''/'' @ project_id p), SetIsLoading False]"
proof -
  let ?ps = "[\<lparr>project_id = ''project-2'', updatedAt = 20250101\<rparr>,
             \<lparr>project_id = ''project-1'', updatedAt = 20250102\<rparr>]"
  let ?res = "\<lparr>success = True, error = None\<rparr>"
  let ?c = "\<lparr>signInAction = (\<lambda>e p. Inr ?res),
          signUpAction = (\<lambda>e p. Inr ?res),
          getAnonWorkData = Inr None,
          getProjects = Inr ?ps,
          createProject = (\<lambda>sp. Inr \<lparr>project_id = ''new-project-123'', updatedAt = 0\<rparr>),
          localeTime = ''1:02:03 PM'', randomDraw = 42\<rparr>"
  have h1: "getAnonWorkData ?c = Inr None" by simp
  have h2: "present_work None = None" by (simp add: present_work_def)
  have h3: "getProjects ?c = Inr ?ps" by simp
  have h4: "?ps \<noteq> []" by simp
  have h5: "success ?res" by simp
  have h6: "signInAction ?c ''test@example.com'' ''password123'' = Inr ?res" by simp
  show ?thesis
    using existing_projects_most_recent [OF h1 h2 h3 h4 h5,
        of "''test@example.com''" "''password123''" initial_state] h6
    by blast
qed

text \<open>
  C5. An anonymous-work record whose \<open>messages\<close> are empty is treated as an absent one:
  sign-in and sign-up give the same state and result on both, and after a successful
  authentication both go on from the anonymous-work read to the project listing.
\<close>
theorem empty_messages_as_absent:
  assumes "messages a = []"
  shows "signIn (c\<lparr>getAnonWorkData := Inr (Some a)\<rparr>) email password s
           = signIn (c\<lparr>getAnonWorkData := Inr None\<rparr>) email password s
       \<and> signUp (c\<lparr>getAnonWorkData := Inr (Some a)\<rparr>) email password s
           = signUp (c\<lparr>getAnonWorkData := Inr None\<rparr>) email password s
       \<and> (signInAction c email password = Inr res \<longrightarrow> success res \<longrightarrow>
            take 4 (effects s (fst (signIn (c\<lparr>getAnonWorkData := Inr (Some a)\<rparr>)
                                      email password s)))
              = [SetIsLoading True, SignInCall email password, GetAnonWorkData, GetProjects])
       \<and> (signUpAction c email password = Inr res \<longrightarrow> success res \<longrightarrow>
            take 4 (effects s (fst (signUp (c\<lparr>getAnonWorkData := Inr (Some a)\<rparr>)
                                      email password s)))
              = [SetIsLoading True, SignUpCall email password, GetAnonWorkData, GetProjects])"
proof -
  have n: "present_work (Some a) = None" using assms by (simp add: present_work_def)
  have same: "\<And>s0. handlePostSignIn (c\<lparr>getAnonWorkData := Inr (Some a)\<rparr>) s0
                 = handlePostSignIn (c\<lparr>getAnonWorkData := Inr None\<rparr>) s0"
    using n by (rule handlePostSignIn_absent_same)
  have att: "\<And>call outcome. attempt call outcome (c\<lparr>getAnonWorkData := Inr (Some a)\<rparr>) s
                 = attempt call outcome (c\<lparr>getAnonWorkData := Inr None\<rparr>) s"
    unfolding attempt_def same ..
  have listing: "\<And>call. success res \<Longrightarrow>
      take 4 (effects s (fst (attempt call (Inr res) (c\<lparr>getAnonWorkData := Inr (Some a)\<rparr>) s)))
        = [SetIsLoading True, call, GetAnonWorkData, GetProjects]"
  proof -
    fix call
    assume sr: "success res"
    let ?c = "c\<lparr>getAnonWorkData := Inr (Some a)\<rparr>"
    let ?s1 = "log_event call (setIsLoading True s)"
    have t1: "trace ?s1 = trace s @ [SetIsLoading True, call]"
      by (simp add: log_event_def setIsLoading_def)
    have "\<exists>evs. trace (fst (handlePostSignIn ?c ?s1))
            = trace ?s1 @ [GetAnonWorkData, GetProjects] @ evs"
    proof (cases "getProjects c")
      case (Inl e)
      then show ?thesis using n by (simp add: handlePostSignIn_def log_event_def)
    next
      case (Inr ps)
      show ?thesis
      proof (cases ps)
        case Nil
        then show ?thesis using n Inr
          by (cases "createProject c \<lparr>proj_name = ''New Design #''
                        @ digits (randomDraw c mod 100000),
                      proj_messages = [], proj_data = []\<rparr>")
             (simp_all add: handlePostSignIn_def Let_def log_event_def)
      next
        case (Cons p rest)
        then show ?thesis using n Inr by (simp add: handlePostSignIn_def log_event_def)
      qed
    qed
    then obtain evs where "trace (fst (handlePostSignIn ?c ?s1))
            = trace s @ [SetIsLoading True, call, GetAnonWorkData, GetProjects] @ evs"
      using t1 by auto
    then have "trace (fst (attempt call (Inr res) ?c s))
            = trace s @ [SetIsLoading True, call, GetAnonWorkData, GetProjects]
                @ evs @ [SetIsLoading False]"
      using sr by (simp add: attempt_success trace_setIsLoading)
    then show "take 4 (effects s (fst (attempt call (Inr res) ?c s)))
        = [SetIsLoading True, call, GetAnonWorkData, GetProjects]"
      by (simp add: effects_def)
  qed
  show ?thesis
    using att listing by (simp add: signIn_def signUp_def)
qed

theorem empty_messages_as_absent_witness:
  "signIn \<lparr>signInAction = (\<lambda>e p. Inr \<lparr>success = True, error = None\<rparr>),
          signUpAction = (\<lambda>e p. Inr \<lparr>success = True, error = None\<rparr>),
          getAnonWorkData = Inr (Some \<lparr>messages = [], fileSystemData = [(''/'', JObj [])]\<rparr>),
          getProjects = Inr [\<lparr>project_id = ''existing-project'', updatedAt = 0\<rparr>],
          createProject = (\<lambda>sp. Inr \<lparr>project_id = ''new-project-123'', updatedAt = 0\<rparr>),
          localeTime = ''1:02:03 PM'', randomDraw = 42\<rparr>
        ''test@example.com'' ''password123'' initial_state
   = signIn \<lparr>signInAction = (\<lambda>e p. Inr \<lparr>success = True, error = None\<rparr>),
          signUpAction = (\<lambda>e p. Inr \<lparr>success = True, error = None\<rparr>),
          getAnonWorkData = Inr None,
          getProjects = Inr [\<lparr>project_id = ''existing-project'', updatedAt = 0\<rparr>],
          createProject = (\<lambda>sp. Inr \<lparr>project_id = ''new-project-123'', updatedAt = 0\<rparr>),
          localeTime = ''1:02:03 PM'', randomDraw = 42\<rparr>
        ''test@example.com'' ''password123'' initial_state"
proof -
  let ?a = "\<lparr>messages = [], fileSystemData = [(''/'', JObj [])]\<rparr>"
  let ?c = "\<lparr>signInAction = (\<lambda>e p. Inr \<lparr>success = True, error = None\<rparr>),
          signUpAction = (\<lambda>e p. Inr \<lparr>success = True, error = None\<rparr>),
          getAnonWorkData = Inr None,
          getProjects = Inr [\<lparr>project_id = ''existing-project'', updatedAt = 0\<rparr>],
          createProject = (\<lambda>sp. Inr \<lparr>project_id = ''new-project-123'', updatedAt = 0\<rparr>),
          localeTime = ''1:02:03 PM'', randomDraw = 42\<rparr>"
  have h: "messages ?a = []" by simp
  show ?thesis
    using empty_messages_as_absent [OF h, of ?c "''test@example.com''" "''password123''"
        initial_state]
    by simp
qed

lemma handlePostSignIn_read_fails:
  assumes "getAnonWorkData c = Inl x"
  shows "snd (handlePostSignIn c s) = Inl x"
  using assms by (simp add: handlePostSignIn_def)

lemma handlePostSignIn_anon_create_fails:
  assumes "getAnonWorkData c = Inr w" and "present_work w = Some a"
    and "createProject c \<lparr>proj_name = ''Design from '' @ localeTime c,
            proj_messages = messages a, proj_data = fileSystemData a\<rparr> = Inl x"
  shows "snd (handlePostSignIn c s) = Inl x"
  using assms by (simp add: handlePostSignIn_def Let_def)

lemma handlePostSignIn_list_fails:
  assumes "getAnonWorkData c = Inr w" and "present_work w = None"
    and "getProjects c = Inl x"
  shows "snd (handlePostSignIn c s) = Inl x"
  using assms by (simp add: handlePostSignIn_def)

lemma handlePostSignIn_new_create_fails:
  assumes "getAnonWorkData c = Inr w" and "present_work w = None"
    and "getProjects c = Inr []"
    and "createProject c \<lparr>proj_name = ''New Design #'' @ digits (randomDraw c mod 100000),
            proj_messages = [], proj_data = []\<rparr> = Inl x"
  shows "snd (handlePostSignIn c s) = Inl x"
  using assms by (simp add: handlePostSignIn_def Let_def)

text \<open>
  C6. For every sign-in or sign-up attempt the loading flag is false once the attempt
  has settled, on every path. When an underlying call throws, its error is the outcome
  of the attempt: the authentication call, and after a successful authentication the
  anonymous-work read, the project listing, and the project creation of either branch.
\<close>
theorem loading_flag_cleared:
  assumes "(outcome, run) = (signInAction c email password, signIn c email password s)
         \<or> (outcome, run) = (signUpAction c email password, signUp c email password s)"
  shows "isLoading (fst run) = False
       \<and> (outcome = Inl x \<longrightarrow> snd run = Inl x)
       \<and> (outcome = Inr res \<and> success res \<longrightarrow>
            (getAnonWorkData c = Inl x \<longrightarrow> snd run = Inl x)
          \<and> (getAnonWorkData c = Inr w \<and> present_work w = Some a
               \<and> createProject c \<lparr>proj_name = ''Design from '' @ localeTime c,
                    proj_messages = messages a, proj_data = fileSystemData a\<rparr> = Inl x
               \<longrightarrow> snd run = Inl x)
          \<and> (getAnonWorkData c = Inr w \<and> present_work w = None \<and> getProjects c = Inl x
               \<longrightarrow> snd run = Inl x)
          \<and> (getAnonWorkData c = Inr w \<and> present_work w = None \<and> getProjects c = Inr []
               \<and> createProject c \<lparr>proj_name = ''New Design #''
                      @ digits (randomDraw c mod 100000),
                    proj_messages = [], proj_data = []\<rparr> = Inl x
               \<longrightarrow> snd run = Inl x))"
proof -
  obtain call where run: "run = attempt call outcome c s"
    using assms by (auto simp: signIn_def signUp_def)
  have flag: "isLoading (fst run) = False"
    unfolding run by (rule isLoading_attempt)
  have auth: "outcome = Inl x \<longrightarrow> snd run = Inl x"
    unfolding run by (simp add: attempt_auth_throws)
  have pg: "\<And>s0. outcome = Inr res \<Longrightarrow> success res \<Longrightarrow>
      snd (handlePostSignIn c s0) = Inl x \<Longrightarrow> snd run = Inl x"
    unfolding run using attempt_propagates by simp
  have r1: "outcome = Inr res \<and> success res \<longrightarrow> getAnonWorkData c = Inl x
              \<longrightarrow> snd run = Inl x"
    using pg [of s] handlePostSignIn_read_fails [of c x s] by blast
  have r2: "outcome = Inr res \<and> success res \<longrightarrow>
      getAnonWorkData c = Inr w \<and> present_work w = Some a
       \<and> createProject c \<lparr>proj_name = ''Design from '' @ localeTime c,
            proj_messages = messages a, proj_data = fileSystemData a\<rparr> = Inl x
       \<longrightarrow> snd run = Inl x"
    using pg [of s] handlePostSignIn_anon_create_fails [of c w a x s] by blast
  have r3: "outcome = Inr res \<and> success res \<longrightarrow>
      getAnonWorkData c = Inr w \<and> present_work w = None \<and> getProjects c = Inl x
       \<longrightarrow> snd run = Inl x"
    using pg [of s] handlePostSignIn_list_fails [of c w x s] by blast
  have r4: "outcome = Inr res \<and> success res \<longrightarrow>
      getAnonWorkData c = Inr w \<and> present_work w = None \<and> getProjects c = Inr []
       \<and> createProject c \<lparr>proj_name = ''New Design #''
              @ digits (randomDraw c mod 100000),
            proj_messages = [], proj_data = []\<rparr> = Inl x
       \<longrightarrow> snd run = Inl x"
    using pg [of s] handlePostSignIn_new_create_fails [of c w x s] by blast
  show ?thesis using flag auth r1 r2 r3 r4 by blast
qed

theorem loading_flag_cleared_witness:
  "(let c = \<lparr>signInAction = (\<lambda>e p. Inr \<lparr>success = True, error = None\<rparr>),
             signUpAction = (\<lambda>e p. Inl (Error ''Network error'')),
             getAnonWorkData = Inr None, getProjects = Inr [],
             createProject = (\<lambda>sp. Inl (Error ''Database error'')),
             localeTime = ''1:02:03 PM'', randomDraw = 42\<rparr>
    in isLoading (fst (signUp c ''test@example.com'' ''password123'' initial_state)) = False
     \<and> snd (signUp c ''test@example.com'' ''password123'' initial_state)
         = Inl (Error ''Network error'')
     \<and> isLoading (fst (signIn c ''test@example.com'' ''password123'' initial_state)) = False
     \<and> snd (signIn c ''test@example.com'' ''password123'' initial_state)
         = Inl (Error ''Database error'')
     \<and> snd (signIn (c\<lparr>getProjects := Inl (Error ''Listing error'')\<rparr>)
              ''test@example.com'' ''password123'' initial_state)
         = Inl (Error ''Listing error'')
     \<and> snd (signIn (c\<lparr>getAnonWorkData := Inl (Error ''Storage error'')\<rparr>)
              ''test@example.com'' ''password123'' initial_state)
         = Inl (Error ''Storage error'')
     \<and> snd (signIn (c\<lparr>getAnonWorkData :=
                        Inr (Some \<lparr>messages = [JStr ''Test''], fileSystemData = []\<rparr>)\<rparr>)
              ''test@example.com'' ''password123'' initial_state)
         = Inl (Error ''Database error''))"
proof -
  let ?res = "\<lparr>success = True, error = None\<rparr>"
  let ?c = "\<lparr>signInAction = (\<lambda>e p. Inr ?res),
             signUpAction = (\<lambda>e p. Inl (Error ''Network error'')),
             getAnonWorkData = Inr None, getProjects = Inr [],
             createProject = (\<lambda>sp. Inl (Error ''Database error'')),
             localeTime = ''1:02:03 PM'', randomDraw = 42\<rparr>"
  let ?c3 = "?c\<lparr>getProjects := Inl (Error ''Listing error'')\<rparr>"
  let ?c4 = "?c\<lparr>getAnonWorkData := Inl (Error ''Storage error'')\<rparr>"
  let ?a = "\<lparr>messages = [JStr ''Test''], fileSystemData = []\<rparr>"
  let ?c5 = "?c\<lparr>getAnonWorkData := Inr (Some ?a)\<rparr>"
  let ?e = "''test@example.com''"
  let ?p = "''password123''"
  have n: "present_work None = None" by (simp add: present_work_def)
  have sm: "present_work (Some ?a) = Some ?a" by (simp add: present_work_def)
  have up: "(signUpAction ?c ?e ?p, signUp ?c ?e ?p initial_state)
              = (signInAction ?c ?e ?p, signIn ?c ?e ?p initial_state)
          \<or> (signUpAction ?c ?e ?p, signUp ?c ?e ?p initial_state)
              = (signUpAction ?c ?e ?p, signUp ?c ?e ?p initial_state)"
    by simp
  have w1: "isLoading (fst (signUp ?c ?e ?p initial_state)) = False
          \<and> snd (signUp ?c ?e ?p initial_state) = Inl (Error ''Network error'')"
    using loading_flag_cleared [OF up, where x = "Error ''Network error''"] by simp
  have i2: "(signInAction ?c ?e ?p, signIn ?c ?e ?p initial_state)
              = (signInAction ?c ?e ?p, signIn ?c ?e ?p initial_state)
          \<or> (signInAction ?c ?e ?p, signIn ?c ?e ?p initial_state)
              = (signUpAction ?c ?e ?p, signUp ?c ?e ?p initial_state)"
    by simp
  have w2: "isLoading (fst (signIn ?c ?e ?p initial_state)) = False
          \<and> snd (signIn ?c ?e ?p initial_state) = Inl (Error ''Database error'')"
    using loading_flag_cleared [OF i2, where x = "Error ''Database error''"
        and res = ?res and w = None] n
    by simp
  have i3: "(signInAction ?c3 ?e ?p, signIn ?c3 ?e ?p initial_state)
              = (signInAction ?c3 ?e ?p, signIn ?c3 ?e ?p initial_state)
          \<or> (signInAction ?c3 ?e ?p, signIn ?c3 ?e ?p initial_state)
              = (signUpAction ?c3 ?e ?p, signUp ?c3 ?e ?p initial_state)"
    by simp
  have w3: "snd (signIn ?c3 ?e ?p initial_state) = Inl (Error ''Listing error'')"
    using loading_flag_cleared [OF i3, where x = "Error ''Listing error''"
        and res = ?res and w = None] n
    by simp
  have i4: "(signInAction ?c4 ?e ?p, signIn ?c4 ?e ?p initial_state)
              = (signInAction ?c4 ?e ?p, signIn ?c4 ?e ?p initial_state)
          \<or> (signInAction ?c4 ?e ?p, signIn ?c4 ?e ?p initial_state)
              = (signUpAction ?c4 ?e ?p, signUp ?c4 ?e ?p initial_state)"
    by simp
  have w4: "snd (signIn ?c4 ?e ?p initial_state) = Inl (Error ''Storage error'')"
    using loading_flag_cleared [OF i4, where x = "Error ''Storage error''"
        and res = ?res]
    by simp
  have i5: "(signInAction ?c5 ?e ?p, signIn ?c5 ?e ?p initial_state)
              = (signInAction ?c5 ?e ?p, signIn ?c5 ?e ?p initial_state)
          \<or> (signInAction ?c5 ?e ?p, signIn ?c5 ?e ?p initial_state)
              = (signUpAction ?c5 ?e ?p, signUp ?c5 ?e ?p initial_state)"
    by simp
  have w5: "snd (signIn ?c5 ?e ?p initial_state) = Inl (Error ''Database error'')"
    using loading_flag_cleared [OF i5, where x = "Error ''Database error''"
        and res = ?res and w = "Some ?a" and a = ?a] sm
    by simp
  show ?thesis
    unfolding Let_def using w1 w2 w3 w4 w5 by blast
qed

end
